theory Spec2Isabelle
  imports Complex_Main "HOL-Library.Word"
begin

section \<open>Runtime values of the TypeScript program\<close>

text \<open>
  The program is TypeScript run by Bun. Its strings are modelled as \<open>string\<close>, a value
  that is a string or \<open>undefined\<close> as \<open>string option\<close> (\<open>None\<close> is \<open>undefined\<close>), the
  bytes of a \<open>Buffer\<close> as \<open>8 word\<close>. None of the functions modelled has a \<open>throw\<close>; the only
  failure the runtime itself can raise on these paths is a \<open>TypeError\<close> (a property read
  on \<open>undefined\<close>, or a non-string handed to \<open>Buffer.from\<close> or to \<open>update\<close>), and every
  such place is a branch of the model.

  The digest \<open>crypto.createHash("sha256").update(x).digest("hex")\<close> is a parameter \<open>H\<close> of
  every function that hashes: a function from the bytes fed to \<open>update\<close> to the hexadecimal
  text of the digest.
\<close>

type_synonym byte = "8 word"

type_synonym digestfn = "byte list \<Rightarrow> string"

datatype error = TypeError

text \<open>\<open>xs[i]\<close> on an array: \<open>undefined\<close> outside the array, never an exception.\<close>

definition lookup :: "'a list \<Rightarrow> int \<Rightarrow> 'a option" where
  "lookup xs i = (if 0 \<le> i \<and> i < int (length xs) then Some (xs ! nat i) else None)"

text \<open>The string that \<open>+\<close> and template literals make of a string or \<open>undefined\<close>.\<close>

definition toStr :: "string option \<Rightarrow> string" where
  "toStr v = (case v of None \<Rightarrow> ''undefined'' | Some s \<Rightarrow> s)"

text \<open>\<open>a % b\<close> on integers: the remainder has the sign of the dividend.\<close>

definition jsRem :: "int \<Rightarrow> int \<Rightarrow> int" where
  "jsRem a b = sgn a * (\<bar>a\<bar> mod \<bar>b\<bar>)"

text \<open>\<open>update(s)\<close> on a string feeds the bytes of its UTF-8 encoding; a \<open>char\<close> is a byte.\<close>

definition utf8 :: "string \<Rightarrow> byte list" where
  "utf8 s = map of_char s"

subsection \<open>\<open>Buffer.from(s, "hex")\<close>\<close>

text \<open>
  The runtime's hexadecimal decoder reads the string two characters at a time and stops,
  without an exception, at the first pair that is not two hexadecimal digits; a single
  trailing character is dropped (\<open>Buffer.from("1ag123", "hex")\<close> is the one byte \<open>1a\<close>,
  and so is \<open>Buffer.from("1a7", "hex")\<close>).
\<close>

definition hexVal :: "char \<Rightarrow> byte option" where
  "hexVal c =
     (let n = (of_char c :: nat)
      in if 48 \<le> n \<and> n \<le> 57 then Some (of_nat (n - 48))
         else if 97 \<le> n \<and> n \<le> 102 then Some (of_nat (n - 87))
         else if 65 \<le> n \<and> n \<le> 70 then Some (of_nat (n - 55))
         else None)"

fun hexDecode :: "string \<Rightarrow> byte list" where
  "hexDecode (a # b # rest) =
     (case hexVal a of
        None \<Rightarrow> []
      | Some x \<Rightarrow> (case hexVal b of
                     None \<Rightarrow> []
                   | Some y \<Rightarrow> (16 * x + y) # hexDecode rest))"
| "hexDecode _ = []"

text \<open>
  A stand-in digest for evaluating the model on concrete inputs: the lower-case
  hexadecimal text of the bytes themselves.
\<close>

definition hexDigit :: "nat \<Rightarrow> char" where
  "hexDigit n = ''0123456789abcdef'' ! (n mod 16)"

fun hexEncode :: "byte list \<Rightarrow> string" where
  "hexEncode [] = []"
| "hexEncode (b # bs) = hexDigit (unat b div 16) # hexDigit (unat b mod 16) # hexEncode bs"

section \<open>helpers.ts: hashing\<close>

text \<open>\<open>hashGeneric\<close>: the digest of a string; \<open>update(undefined)\<close> throws.\<close>

definition hashGeneric :: "digestfn \<Rightarrow> string option \<Rightarrow> error + string" where
  "hashGeneric H dat = (case dat of None \<Rightarrow> Inl TypeError | Some s \<Rightarrow> Inr (H (utf8 s)))"

text \<open>
  \<open>hashPair\<close> of helpers.ts: \<open>Buffer.from(left + right, "hex")\<close>, then the digest. With both
  operands \<open>undefined\<close> the sum is the number \<open>NaN\<close>, which \<open>Buffer.from\<close> rejects; with one
  of them a string, \<open>+\<close> concatenates.
\<close>

definition hashPair :: "digestfn \<Rightarrow> string option \<Rightarrow> string option \<Rightarrow> error + string" where
  "hashPair H left right =
     (case (left, right) of
        (None, None) \<Rightarrow> Inl TypeError
      | _ \<Rightarrow> (let dat = hexDecode (toStr left @ toStr right) in Inr (H dat)))"

text \<open>The method \<open>hashPair\<close> of the class \<open>MerkleTree\<close>, the same two lines.\<close>

definition MerkleTree_hashPair :: "digestfn \<Rightarrow> string option \<Rightarrow> string option \<Rightarrow> error + string" where
  "MerkleTree_hashPair H left right =
     (case (left, right) of
        (None, None) \<Rightarrow> Inl TypeError
      | _ \<Rightarrow> (let dat = hexDecode (toStr left @ toStr right) in Inr (H dat)))"

text \<open>\<open>Array.prototype.join\<close> on strings.\<close>

fun join :: "string \<Rightarrow> string list \<Rightarrow> string" where
  "join sep [] = []"
| "join sep [x] = x"
| "join sep (x # y # rest) = x @ sep @ join sep (y # rest)"

text \<open>
  An account. The balance is a JavaScript number; its rendering in a template literal
  is the parameter \<open>num\<close> of \<open>stringifyAccounts\<close>.
\<close>

record 'n Balance =
  asset :: string
  balance :: 'n

record 'n Account =
  "identifier" :: string
  balances :: "'n Balance list"

definition stringifyAccounts :: "('n \<Rightarrow> string) \<Rightarrow> 'n Account list \<Rightarrow> string list" where
  "stringifyAccounts num accounts =
     map (\<lambda>account. identifier account @ '':'' @
            join '','' (map (\<lambda>b. asset b @ num (balance b)) (balances account)))
         accounts"

text \<open>The props' \<open>type\<close> tag and \<open>data\<close> array, a tagged union.\<close>

datatype 'n TreeData = Balances "'n Account list" | Generic "string list"

text \<open>\<open>Array.prototype.map\<close> with a callback that may throw: the first exception ends it.\<close>

fun mapE :: "('a \<Rightarrow> error + 'b) \<Rightarrow> 'a list \<Rightarrow> error + 'b list" where
  "mapE f [] = Inr []"
| "mapE f (x # xs) =
     (case f x of
        Inl e \<Rightarrow> Inl e
      | Inr y \<Rightarrow> (case mapE f xs of Inl e \<Rightarrow> Inl e | Inr ys \<Rightarrow> Inr (y # ys)))"

definition hashData :: "digestfn \<Rightarrow> ('n \<Rightarrow> string) \<Rightarrow> 'n TreeData \<Rightarrow> error + string list" where
  "hashData H num d =
     (case d of
        Balances accounts \<Rightarrow>
          mapE (\<lambda>leaf. let leafToHash = stringifyAccounts num [leaf]
                        in hashGeneric H (lookup leafToHash 0)) accounts
      | Generic strs \<Rightarrow> mapE (\<lambda>leaf. hashGeneric H (Some leaf)) strs)"

section \<open>Building the layers\<close>

text \<open>
  The \<open>for\<close> loop inside \<open>buildTree\<close> and \<open>workerBuildTree\<close>: \<open>i\<close> steps by two through
  \<open>currentLayer\<close>, \<open>newLayer\<close> grows by one digest each round. The two copies of the loop
  differ only in the pair function they call, the parameter \<open>hp\<close>.
\<close>

function buildLayer ::
  "(string option \<Rightarrow> string option \<Rightarrow> error + string) \<Rightarrow> string list \<Rightarrow> nat \<Rightarrow> string list
     \<Rightarrow> error + string list" where
  "buildLayer hp currentLayer i newLayer =
     (if i < length currentLayer then
        (let left = lookup currentLayer (int i);
             right = (if i + 1 < length currentLayer
                      then lookup currentLayer (int i + 1) else left)
         in case hp left right of
              Inl e \<Rightarrow> Inl e
            | Inr h \<Rightarrow> buildLayer hp currentLayer (i + 2) (newLayer @ [h]))
      else Inr newLayer)"
  by pat_completeness auto
termination
  by (relation "measure (\<lambda>(hp, currentLayer, i, newLayer). length currentLayer - i)") auto

lemma buildLayer_length:
  "buildLayer hp cl i acc = Inr nl \<Longrightarrow> length nl = length acc + (length cl - i + 1) div 2"
proof (induction hp cl i acc rule: buildLayer.induct)
  case (1 hp cl i acc)
  show ?case
  proof (cases "i < length cl")
    case False
    with "1.prems" show ?thesis by simp
  next
    case True
    let ?l = "lookup cl (int i)"
    let ?r = "if i + 1 < length cl then lookup cl (int i + 1) else ?l"
    from True "1.prems" obtain h where h: "hp ?l ?r = Inr h"
      and rec: "buildLayer hp cl (i + 2) (acc @ [h]) = Inr nl"
      by (auto simp: Let_def split: sum.splits)
    from "1.IH" [OF True refl refl h rec] True show ?thesis
      by simp arith
  qed
qed

text \<open>The \<open>while\<close> loop: a new layer is pushed until the current one has at most one node.\<close>

function buildLoop ::
  "(string option \<Rightarrow> string option \<Rightarrow> error + string) \<Rightarrow> string list \<Rightarrow> string list list
     \<Rightarrow> error + string list list" where
  "buildLoop hp currentLayer layers =
     (if length currentLayer > 1 then
        (case buildLayer hp currentLayer 0 [] of
           Inl e \<Rightarrow> Inl e
         | Inr newLayer \<Rightarrow> buildLoop hp newLayer (layers @ [newLayer]))
      else Inr layers)"
  by pat_completeness auto
termination
proof (relation "measure (\<lambda>(hp, currentLayer, layers). length currentLayer)")
  show "wf (measure (\<lambda>(hp, currentLayer, layers). length currentLayer))" by simp
next
  fix hp :: "string option \<Rightarrow> string option \<Rightarrow> error + string"
  fix currentLayer :: "string list" and layers :: "string list list" and newLayer
  assume "1 < length currentLayer" "buildLayer hp currentLayer 0 [] = Inr newLayer"
  then show "((hp, newLayer, layers @ [newLayer]), (hp, currentLayer, layers))
      \<in> measure (\<lambda>(hp, currentLayer, layers). length currentLayer)"
    using buildLayer_length [of hp currentLayer 0 "[]" newLayer] by simp
qed

declare buildLayer.simps [simp del] buildLoop.simps [simp del]

definition workerBuildTree :: "digestfn \<Rightarrow> string list \<Rightarrow> error + string list list" where
  "workerBuildTree H leaves =
     (let currentLayer = leaves; layers = [leaves]
      in buildLoop (hashPair H) currentLayer layers)"

section \<open>Proofs of inclusion\<close>

datatype direction = Left | Right

record proofStep =
  sibling :: "string option"
  direction :: direction

text \<open>
  The loop of \<open>getProof\<close>, the same text in the class and in the worker. \<open>layers[i]\<close>
  is read with \<open>lookup\<close>; its \<open>length\<close> would throw on \<open>undefined\<close>. The sibling is read
  with \<open>lookup\<close> as well and may be \<open>undefined\<close>.
\<close>

function getProof_loop ::
  "string list list \<Rightarrow> nat \<Rightarrow> int \<Rightarrow> proofStep list \<Rightarrow> error + proofStep list" where
  "getProof_loop layers i currentIndex prf =
     (if int i < int (length layers) - 1 then
        (case lookup layers (int i) of
           None \<Rightarrow> Inl TypeError
         | Some currentLayer \<Rightarrow>
             (let isRightNode = (jsRem currentIndex 2 = 1);
                  siblingIndex = (if isRightNode then currentIndex - 1 else currentIndex + 1);
                  entry = (if siblingIndex < int (length currentLayer)
                           then \<lparr>sibling = lookup currentLayer siblingIndex,
                                 direction = (if isRightNode then Left else Right)\<rparr>
                           else \<lparr>sibling = lookup currentLayer currentIndex,
                                 direction = Right\<rparr>)
              in getProof_loop layers (i + 1) (currentIndex div 2) (prf @ [entry])))
      else Inr prf)"
  by pat_completeness auto
termination
  by (relation "measure (\<lambda>(layers, i, currentIndex, prf). length layers - i)") auto

declare getProof_loop.simps [simp del]

definition getProof :: "string list list \<Rightarrow> int \<Rightarrow> error + proofStep list" where
  "getProof layers index = getProof_loop layers 0 index []"

text \<open>\<open>verifyLeaf\<close>, the same text in the class and in the worker; both call helpers.ts.\<close>

fun verifyLeaf_loop :: "digestfn \<Rightarrow> string option \<Rightarrow> proofStep list \<Rightarrow> error + string option" where
  "verifyLeaf_loop H computedHash [] = Inr computedHash"
| "verifyLeaf_loop H computedHash (step # rest) =
     (case (if direction step = Left
            then hashPair H (sibling step) computedHash
            else hashPair H computedHash (sibling step)) of
        Inl e \<Rightarrow> Inl e
      | Inr h \<Rightarrow> verifyLeaf_loop H (Some h) rest)"

definition verifyLeaf ::
  "digestfn \<Rightarrow> string option \<Rightarrow> proofStep list \<Rightarrow> string option \<Rightarrow> error + bool" where
  "verifyLeaf H leaf prf root' =
     (case verifyLeaf_loop H leaf prf of
        Inl e \<Rightarrow> Inl e
      | Inr computedHash \<Rightarrow> Inr (computedHash = root'))"

text \<open>
  The loop of \<open>verifyTree\<close> and of \<open>handleValidate\<close>: every leaf index in turn, two
  counters, no early exit. An exception of \<open>getProof\<close> or \<open>verifyLeaf\<close> would end it.
\<close>

function verifyLoop ::
  "digestfn \<Rightarrow> string list \<Rightarrow> string list list \<Rightarrow> string option \<Rightarrow> nat \<Rightarrow> nat \<Rightarrow> nat
     \<Rightarrow> error + nat \<times> nat" where
  "verifyLoop H leaves layers root' i completed errors =
     (if i < length leaves then
        (let leaf = lookup leaves (int i)
         in case getProof layers (int i) of
              Inl e \<Rightarrow> Inl e
            | Inr prf \<Rightarrow>
                (case verifyLeaf H leaf prf root' of
                   Inl e \<Rightarrow> Inl e
                 | Inr check \<Rightarrow>
                     (if check then verifyLoop H leaves layers root' (i + 1) (completed + 1) errors
                      else verifyLoop H leaves layers root' (i + 1) completed (errors + 1))))
      else Inr (completed, errors))"
  by pat_completeness auto
termination
  by (relation "measure (\<lambda>(H, leaves, layers, root', i, completed, errors). length leaves - i)")
    auto

declare verifyLoop.simps [simp del]

section \<open>The class \<open>MerkleTree\<close>\<close>

record 'n MerkleTree =
  leaves :: "string list"
  layers :: "string list list"
  data :: "'n TreeData"
  root :: "string option"

text \<open>\<open>buildTree\<close> starts from \<open>this.leaves\<close> and pushes onto \<open>this.layers\<close>.\<close>

definition buildTree :: "digestfn \<Rightarrow> 'n MerkleTree \<Rightarrow> error + 'n MerkleTree" where
  "buildTree H t =
     (case buildLoop (MerkleTree_hashPair H) (leaves t) (layers t) of
        Inl e \<Rightarrow> Inl e
      | Inr ls \<Rightarrow> Inr (t\<lparr>layers := ls\<rparr>))"

text \<open>
  The constructor. The props' optional \<open>leaves\<close>, \<open>layers\<close> and \<open>root\<close> are options; the
  test \<open>leaves && layers && root\<close> holds when the two arrays are given and \<open>root\<close> is a
  non-empty string (the empty string is falsy). In the other branch \<open>root\<close> is read from
  position 0 of the last layer.
\<close>

definition truthy :: "string option \<Rightarrow> bool" where
  "truthy v = (case v of None \<Rightarrow> False | Some s \<Rightarrow> s \<noteq> [])"

definition MerkleTree_new ::
  "digestfn \<Rightarrow> ('n \<Rightarrow> string) \<Rightarrow> 'n TreeData \<Rightarrow> string list option \<Rightarrow> string list list option
     \<Rightarrow> string option \<Rightarrow> error + 'n MerkleTree" where
  "MerkleTree_new H num d leavesOpt layersOpt rootOpt =
     (case (leavesOpt, layersOpt, truthy rootOpt) of
        (Some lv, Some ls, True) \<Rightarrow>
          Inr \<lparr>leaves = lv, layers = ls, data = d, root = rootOpt\<rparr>
      | _ \<Rightarrow>
          (case hashData H num d of
             Inl e \<Rightarrow> Inl e
           | Inr lv \<Rightarrow>
               (case buildTree H \<lparr>leaves = lv, layers = [lv], data = d, root = None\<rparr> of
                  Inl e \<Rightarrow> Inl e
                | Inr t \<Rightarrow>
                    (case lookup (layers t) (int (length (layers t)) - 1) of
                       None \<Rightarrow> Inl TypeError
                     | Some lastLayer \<Rightarrow> Inr (t\<lparr>root := lookup lastLayer 0\<rparr>)))))"

definition MerkleTree_getProof :: "'n MerkleTree \<Rightarrow> int \<Rightarrow> error + proofStep list" where
  "MerkleTree_getProof t index = getProof (layers t) index"

record verifyResult =
  status :: bool
  completed :: nat
  errors :: nat

definition verifyTree :: "digestfn \<Rightarrow> 'n MerkleTree \<Rightarrow> error + verifyResult" where
  "verifyTree H t =
     (case verifyLoop H (leaves t) (layers t) (root t) 0 0 0 of
        Inl e \<Rightarrow> Inl e
      | Inr (c, e) \<Rightarrow> Inr \<lparr>status = (e = 0), completed = c, errors = e\<rparr>)"

text \<open>
  The worker's \<open>handleValidate\<close> runs the same loop on the tree it was sent and posts
  the three values; the message is modelled by the same record.
\<close>

definition handleValidate :: "digestfn \<Rightarrow> 'n MerkleTree \<Rightarrow> error + verifyResult" where
  "handleValidate H merkleTree =
     (case verifyLoop H (leaves merkleTree) (layers merkleTree) (root merkleTree) 0 0 0 of
        Inl e \<Rightarrow> Inl e
      | Inr (c, e) \<Rightarrow> Inr \<lparr>status = (e = 0), completed = c, errors = e\<rparr>)"

section \<open>The loops as functions on lists\<close>

text \<open>
  List functions that the index loops are shown to compute, and the notions of the
  specification that the claims are stated with. None of them replaces a definition
  above: every claim is about the loops.
\<close>

text \<open>What \<open>hashPair\<close> returns on two strings.\<close>

definition pairDigest :: "digestfn \<Rightarrow> string \<Rightarrow> string \<Rightarrow> string" where
  "pairDigest H a b = H (hexDecode (a @ b))"

text \<open>One layer from the one below: neighbours in pairs, a last single node with itself.\<close>

fun pairUp :: "digestfn \<Rightarrow> string list \<Rightarrow> string list" where
  "pairUp H (a # b # rest) = pairDigest H a b # pairUp H rest"
| "pairUp H [a] = [pairDigest H a a]"
| "pairUp H [] = []"

lemma length_pairUp: "length (pairUp H xs) = (length xs + 1) div 2"
  by (induction H xs rule: pairUp.induct) simp_all

text \<open>All the layers above and including \<open>xs\<close>.\<close>

function layersFrom :: "digestfn \<Rightarrow> string list \<Rightarrow> string list list" where
  "layersFrom H xs = (if length xs > 1 then xs # layersFrom H (pairUp H xs) else [xs])"
  by pat_completeness auto
termination
  by (relation "measure (\<lambda>(H, xs). length xs)") (auto simp: length_pairUp)

declare layersFrom.simps [simp del]

text \<open>The body of the loop of \<open>getProof\<close>: the step pushed at one layer.\<close>

definition proofEntry :: "string list \<Rightarrow> int \<Rightarrow> proofStep" where
  "proofEntry currentLayer currentIndex =
     (let isRightNode = (jsRem currentIndex 2 = 1);
          siblingIndex = (if isRightNode then currentIndex - 1 else currentIndex + 1)
      in if siblingIndex < int (length currentLayer)
         then \<lparr>sibling = lookup currentLayer siblingIndex,
               direction = (if isRightNode then Left else Right)\<rparr>
         else \<lparr>sibling = lookup currentLayer currentIndex, direction = Right\<rparr>)"

text \<open>The steps from a list of layers, bottom up, none for the last layer.\<close>

fun proofPath :: "string list list \<Rightarrow> int \<Rightarrow> proofStep list" where
  "proofPath (l # l' # ls) c = proofEntry l c # proofPath (l' # ls) (c div 2)"
| "proofPath _ c = []"

text \<open>The leaves \<open>hashData\<close> returns.\<close>

definition leafDigests :: "digestfn \<Rightarrow> ('n \<Rightarrow> string) \<Rightarrow> 'n TreeData \<Rightarrow> string list" where
  "leafDigests H num d =
     (case d of
        Balances accounts \<Rightarrow> map (\<lambda>s. H (utf8 s)) (stringifyAccounts num accounts)
      | Generic strs \<Rightarrow> map (\<lambda>s. H (utf8 s)) strs)"

text \<open>The constructor's test \<open>leaves && layers && root\<close>.\<close>

definition precomputed :: "string list option \<Rightarrow> string list list option \<Rightarrow> string option \<Rightarrow> bool" where
  "precomputed leavesOpt layersOpt rootOpt =
     (leavesOpt \<noteq> None \<and> layersOpt \<noteq> None \<and> truthy rootOpt)"

text \<open>
  The specification's canonical text of a structured record: the identifier, a colon,
  then each asset followed by its balance, the pairs separated by commas.
\<close>

fun balancePairs :: "('n \<Rightarrow> string) \<Rightarrow> 'n Balance list \<Rightarrow> string" where
  "balancePairs num [] = []"
| "balancePairs num [b] = asset b @ num (balance b)"
| "balancePairs num (b # b' # bs) = asset b @ num (balance b) @ '','' @ balancePairs num (b' # bs)"

definition canonicalRecord :: "('n \<Rightarrow> string) \<Rightarrow> 'n Account \<Rightarrow> string" where
  "canonicalRecord num a = identifier a @ '':'' @ balancePairs num (balances a)"

text \<open>The specification's current index at layer \<open>i\<close>: the next index is \<open>\<lfloor>c / 2\<rfloor>\<close>.\<close>

fun indexAt :: "nat \<Rightarrow> nat \<Rightarrow> nat" where
  "indexAt k 0 = k"
| "indexAt k (Suc i) = indexAt k i div 2"

text \<open>Whether leaf \<open>i\<close> passes \<open>getProof\<close> and \<open>verifyLeaf\<close> against the root \<open>r\<close>.\<close>

definition leafVerifies ::
  "digestfn \<Rightarrow> string list \<Rightarrow> string list list \<Rightarrow> string option \<Rightarrow> nat \<Rightarrow> bool" where
  "leafVerifies H lv ls r i =
     (case getProof ls (int i) of
        Inl e \<Rightarrow> False
      | Inr p \<Rightarrow> (case verifyLeaf H (lookup lv (int i)) p r of Inl e \<Rightarrow> False | Inr b \<Rightarrow> b))"


text \<open>
  The specification's structural invariants 1 to 3 of a tree: as many leaf digests as
  records; each layer half the one below, rounded up; a last layer of one node, which
  is the root.
\<close>

definition recordCount :: "'n TreeData \<Rightarrow> nat" where
  "recordCount d = (case d of Balances accounts \<Rightarrow> length accounts | Generic strs \<Rightarrow> length strs)"

definition invariant1 :: "'n MerkleTree \<Rightarrow> bool" where
  "invariant1 t = (case layers t of [] \<Rightarrow> False | l0 # _ \<Rightarrow> length l0 = recordCount (data t))"

definition invariant2 :: "'n MerkleTree \<Rightarrow> bool" where
  "invariant2 t =
     list_all (\<lambda>i. length (layers t ! (i + 1)) = (length (layers t ! i) + 1) div 2)
       [0..<length (layers t) - 1]"

definition invariant3 :: "'n MerkleTree \<Rightarrow> bool" where
  "invariant3 t =
     (layers t \<noteq> [] \<and> length (last (layers t)) = 1 \<and> root t = lookup (last (layers t)) 0)"

section \<open>The loops compute these functions\<close>

lemma lookup_nat: "i < length xs \<Longrightarrow> lookup xs (int i) = Some (xs ! i)"
  by (simp add: lookup_def)

lemma lookup_Suc: "i + 1 < length xs \<Longrightarrow> lookup xs (int i + 1) = Some (xs ! (i + 1))"
  by (simp add: lookup_def nat_add_distrib)

lemma lookup_range: "0 \<le> i \<Longrightarrow> i < int (length xs) \<Longrightarrow> lookup xs i = Some (xs ! nat i)"
  by (simp add: lookup_def)

lemma hashPair_Some: "hashPair H (Some a) (Some b) = Inr (pairDigest H a b)"
  by (simp add: hashPair_def pairDigest_def toStr_def)

lemma MerkleTree_hashPair_eq: "MerkleTree_hashPair H = hashPair H"
  by (intro ext) (simp add: MerkleTree_hashPair_def hashPair_def)

lemma pairUp_nth:
  "j < length (pairUp H xs) \<Longrightarrow>
   pairUp H xs ! j =
     pairDigest H (xs ! (2 * j)) (if 2 * j + 1 < length xs then xs ! (2 * j + 1) else xs ! (2 * j))"
proof (induction H xs arbitrary: j rule: pairUp.induct)
  case (1 H a b rest)
  then show ?case by (cases j) simp_all
next
  case (2 H a)
  then show ?case by simp
next
  case (3 H)
  then show ?case by simp
qed

lemma buildLayer_pairUp:
  "buildLayer (hashPair H) cl i acc = Inr (acc @ pairUp H (drop i cl))"
proof (induction "hashPair H" cl i acc rule: buildLayer.induct)
  case (1 cl i acc)
  show ?case
  proof (cases "i < length cl")
    case False
    then show ?thesis by (subst buildLayer.simps) simp
  next
    case True
    note lt = True
    show ?thesis
    proof (cases "i + 1 < length cl")
      case True
      then have d: "drop i cl = cl ! i # cl ! (i + 1) # drop (i + 2) cl"
        by (metis Cons_nth_drop_Suc Suc_eq_plus1 add_2_eq_Suc' lt)
      have h: "hashPair H (lookup cl (int i)) (lookup cl (int i + 1)) = Inr (pairDigest H (cl ! i) (cl ! (i + 1)))"
        using lt True by (simp add: lookup_nat lookup_Suc hashPair_Some)
      from "1.hyps" [OF lt refl refl, of "pairDigest H (cl ! i) (cl ! (i + 1))"] h True lt
      have "buildLayer (hashPair H) cl (i + 2) (acc @ [pairDigest H (cl ! i) (cl ! (i + 1))])
            = Inr ((acc @ [pairDigest H (cl ! i) (cl ! (i + 1))]) @ pairUp H (drop (i + 2) cl))"
        by simp
      with h True lt d show ?thesis
        by (subst buildLayer.simps) simp
    next
      case False
      with lt have d: "drop i cl = [cl ! i]"
        by (metis Cons_nth_drop_Suc Suc_eq_plus1 drop_all not_less)
      have h: "hashPair H (lookup cl (int i)) (lookup cl (int i)) = Inr (pairDigest H (cl ! i) (cl ! i))"
        using lt by (simp add: lookup_nat hashPair_Some)
      from "1.hyps" [OF lt refl refl, of "pairDigest H (cl ! i) (cl ! i)"] h False lt
      have "buildLayer (hashPair H) cl (i + 2) (acc @ [pairDigest H (cl ! i) (cl ! i)])
            = Inr ((acc @ [pairDigest H (cl ! i) (cl ! i)]) @ pairUp H (drop (i + 2) cl))"
        by simp
      with h False lt d show ?thesis
        by (subst buildLayer.simps) simp
    qed
  qed
qed

lemma layersFrom_short: "length xs \<le> 1 \<Longrightarrow> layersFrom H xs = [xs]"
  by (subst layersFrom.simps) simp

lemma layersFrom_long: "1 < length xs \<Longrightarrow> layersFrom H xs = xs # layersFrom H (pairUp H xs)"
  by (subst layersFrom.simps) simp

lemma layersFrom_Cons: "\<exists>ls. layersFrom H xs = xs # ls"
  by (subst layersFrom.simps) simp

lemma layersFrom_hd: "hd (layersFrom H xs) = xs"
  using layersFrom_Cons [of H xs] by auto

lemma buildLoop_layersFrom:
  "buildLoop (hashPair H) cl acc = Inr (acc @ tl (layersFrom H cl))"
proof (induction "hashPair H" cl acc rule: buildLoop.induct)
  case (1 cl acc)
  show ?case
  proof (cases "1 < length cl")
    case False
    then show ?thesis by (subst buildLoop.simps) (simp add: layersFrom_short)
  next
    case True
    have b: "buildLayer (hashPair H) cl 0 [] = Inr (pairUp H cl)"
      by (simp add: buildLayer_pairUp)
    from "1.hyps" [OF True b]
    have "buildLoop (hashPair H) (pairUp H cl) (acc @ [pairUp H cl])
          = Inr ((acc @ [pairUp H cl]) @ tl (layersFrom H (pairUp H cl)))" .
    moreover have "tl (layersFrom H cl) = pairUp H cl # tl (layersFrom H (pairUp H cl))"
      using layersFrom_Cons [of H "pairUp H cl"] True by (auto simp: layersFrom_long)
    ultimately show ?thesis using True b
      by (subst buildLoop.simps) simp
  qed
qed

lemma workerBuildTree_layersFrom: "workerBuildTree H lv = Inr (layersFrom H lv)"
  using layersFrom_Cons [of H lv]
  by (auto simp: workerBuildTree_def buildLoop_layersFrom)

lemma last_layersFrom_length: "xs \<noteq> [] \<Longrightarrow> length (last (layersFrom H xs)) = 1"
proof (induction H xs rule: layersFrom.induct)
  case (1 H xs)
  show ?case
  proof (cases "1 < length xs")
    case True
    then have "pairUp H xs \<noteq> []" using length_pairUp [of H xs] by auto
    with "1.IH" [OF True] have "length (last (layersFrom H (pairUp H xs))) = 1" .
    moreover have "layersFrom H (pairUp H xs) \<noteq> []" using layersFrom_Cons [of H "pairUp H xs"] by auto
    ultimately show ?thesis using True by (simp add: layersFrom_long)
  next
    case False
    with "1.prems" have "length xs = 1" by (cases xs) auto
    with False show ?thesis by (simp add: layersFrom_short)
  qed
qed

lemma length_layersFrom:
  "xs \<noteq> [] \<Longrightarrow> int (length (layersFrom H xs)) = \<lceil>log 2 (real (length xs))\<rceil> + 1"
proof (induction H xs rule: layersFrom.induct)
  case (1 H xs)
  show ?case
  proof (cases "1 < length xs")
    case True
    then have ne: "pairUp H xs \<noteq> []" using length_pairUp [of H xs] by auto
    have len: "length (pairUp H xs) = (length xs - 1) div 2 + 1"
      using True by (simp add: length_pairUp)
    from True have "2 \<le> length xs" by simp
    from ceiling_log2_div2 [OF this]
    have "\<lceil>log 2 (real (length xs))\<rceil> = \<lceil>log 2 (real (length (pairUp H xs)))\<rceil> + 1"
      by (simp add: len)
    with "1.IH" [OF True ne] True show ?thesis by (simp add: layersFrom_long)
  next
    case False
    with "1.prems" have "length xs = 1" by (cases xs) auto
    with False show ?thesis by (simp add: layersFrom_short)
  qed
qed

lemma length_proofPath: "length (proofPath ls c) = length ls - 1"
  by (induction ls c rule: proofPath.induct) simp_all

lemma getProof_loop_path:
  "getProof_loop ls i c acc = Inr (acc @ proofPath (drop i ls) c)"
proof (induction ls i c acc rule: getProof_loop.induct)
  case (1 ls i c acc)
  show ?case
  proof (cases "int i < int (length ls) - 1")
    case False
    then have "length (drop i ls) \<le> 1" by simp
    then have "proofPath (drop i ls) c = []"
      using length_proofPath [of "drop i ls" c] by simp
    with False show ?thesis by (subst getProof_loop.simps) simp
  next
    case True
    then have lt: "i < length ls" and lt': "Suc i < length ls" by simp_all
    have lk: "lookup ls (int i) = Some (ls ! i)" using lt by (rule lookup_nat)
    have d: "drop i ls = ls ! i # ls ! Suc i # drop (Suc (Suc i)) ls"
      using lt lt' by (simp add: Cons_nth_drop_Suc)
    have d': "drop (i + 1) ls = ls ! Suc i # drop (Suc (Suc i)) ls"
      using lt' by (simp add: Cons_nth_drop_Suc)
    have "getProof_loop ls (i + 1) (c div 2) (acc @ [proofEntry (ls ! i) c])
          = Inr ((acc @ [proofEntry (ls ! i) c]) @ proofPath (drop (i + 1) ls) (c div 2))"
      using "1.IH" [OF True lk refl refl refl] by (simp add: proofEntry_def Let_def)
    then show ?thesis using True lk d d'
      by (subst getProof_loop.simps) (simp add: proofEntry_def Let_def)
  qed
qed

lemma getProof_path: "getProof ls c = Inr (proofPath ls c)"
  by (simp add: getProof_def getProof_loop_path)

lemma jsRem_odd: "0 \<le> c \<Longrightarrow> (jsRem c 2 = 1) = odd c"
  by (cases "c = 0") (auto simp: jsRem_def sgn_if odd_iff_mod_2_eq_one)

lemma proofEntry_in_range:
  assumes "c < length l"
  shows "proofEntry l (int c) =
     (if odd c then \<lparr>sibling = Some (l ! (c - 1)), direction = Left\<rparr>
      else if c + 1 < length l then \<lparr>sibling = Some (l ! (c + 1)), direction = Right\<rparr>
      else \<lparr>sibling = Some (l ! c), direction = Right\<rparr>)"
proof -
  have r: "(jsRem (int c) 2 = 1) = odd c" using jsRem_odd [of "int c"] by simp
  show ?thesis
  proof (cases "odd c")
    case True
    then have "0 < c" by (cases c) auto
    then have "int c - 1 = int (c - 1)" by simp
    moreover have "c - 1 < length l" using assms by simp
    ultimately show ?thesis using True r assms
      by (simp add: proofEntry_def lookup_nat del: of_nat_diff)
  next
    case False
    then show ?thesis using r assms
      by (auto simp: proofEntry_def lookup_nat lookup_Suc)
  qed
qed

lemma verify_step:
  assumes "c < length l"
  shows "(let step = proofEntry l (int c) in
          if direction step = Left then hashPair H (sibling step) (Some (l ! c))
          else hashPair H (Some (l ! c)) (sibling step))
         = Inr (pairUp H l ! (c div 2))"
proof -
  have j: "c div 2 < length (pairUp H l)" using assms by (simp add: length_pairUp)
  note e = proofEntry_in_range [OF assms]
  show ?thesis
  proof (cases "odd c")
    case True
    then obtain m where m: "c = 2 * m + 1" by (auto elim: oddE)
    with assms j show ?thesis unfolding Let_def e
      by (simp add: hashPair_Some pairUp_nth)
  next
    case False
    then obtain m where m: "c = 2 * m" by (auto elim: evenE)
    with assms j show ?thesis unfolding Let_def e
      by (simp add: hashPair_Some pairUp_nth)
  qed
qed

lemma verifyLeaf_loop_layersFrom:
  "k < length xs \<Longrightarrow>
   verifyLeaf_loop H (Some (xs ! k)) (proofPath (layersFrom H xs) (int k))
     = Inr (lookup (last (layersFrom H xs)) 0)"
proof (induction H xs arbitrary: k rule: layersFrom.induct)
  case (1 H xs)
  show ?case
  proof (cases "1 < length xs")
    case False
    with "1.prems" have "k = 0" by simp
    with False "1.prems" show ?thesis by (simp add: layersFrom_short lookup_def)
  next
    case True
    obtain ls where ls: "layersFrom H (pairUp H xs) = pairUp H xs # ls"
      using layersFrom_Cons by blast
    have k2: "k div 2 < length (pairUp H xs)" using "1.prems" by (simp add: length_pairUp)
    have "int k div 2 = int (k div 2)" by simp
    with "1.IH" [OF True k2] ls
    have ih: "verifyLeaf_loop H (Some (pairUp H xs ! (k div 2)))
               (proofPath (pairUp H xs # ls) (int k div 2))
             = Inr (lookup (last (pairUp H xs # ls)) 0)"
      by (simp del: of_nat_div)
    show ?thesis
      using verify_step [OF "1.prems", of H] ih True ls
      by (simp add: layersFrom_long Let_def del: of_nat_div)
  qed
qed

lemma mapE_Inr: "(\<And>x. x \<in> set xs \<Longrightarrow> f x = Inr (g x)) \<Longrightarrow> mapE f xs = Inr (map g xs)"
  by (induction xs) simp_all

lemma hashData_Inr: "hashData H num d = Inr (leafDigests H num d)"
proof (cases d)
  case (Balances accounts)
  have "mapE (\<lambda>leaf. let leafToHash = stringifyAccounts num [leaf]
                       in hashGeneric H (lookup leafToHash 0)) accounts
        = Inr (map (\<lambda>a. H (utf8 (identifier a @ '':'' @
            join '','' (map (\<lambda>b. asset b @ num (balance b)) (balances a))))) accounts)"
    by (rule mapE_Inr) (simp add: stringifyAccounts_def lookup_def hashGeneric_def)
  with Balances show ?thesis
    by (simp add: hashData_def leafDigests_def stringifyAccounts_def comp_def)
next
  case (Generic strs)
  have "mapE (\<lambda>leaf. hashGeneric H (Some leaf)) strs = Inr (map (\<lambda>s. H (utf8 s)) strs)"
    by (rule mapE_Inr) (simp add: hashGeneric_def)
  with Generic show ?thesis by (simp add: hashData_def leafDigests_def)
qed

lemma join_balancePairs:
  "join '','' (map (\<lambda>b. asset b @ num (balance b)) bs) = balancePairs num bs"
  by (induction num bs rule: balancePairs.induct) simp_all

lemma buildTree_layersFrom:
  "buildTree H \<lparr>leaves = lv, layers = [lv], data = d, root = r\<rparr>
     = Inr \<lparr>leaves = lv, layers = layersFrom H lv, data = d, root = r\<rparr>"
  using layersFrom_Cons [of H lv]
  by (auto simp: buildTree_def MerkleTree_hashPair_eq buildLoop_layersFrom)

lemma layersFrom_nonempty: "layersFrom H xs \<noteq> []"
  using layersFrom_Cons [of H xs] by auto

lemma lookup_last: "ls \<noteq> [] \<Longrightarrow> lookup ls (int (length ls) - 1) = Some (last ls)"
  by (cases ls rule: rev_cases) (simp_all add: lookup_def nat_diff_distrib)

lemma MerkleTree_new_fresh:
  assumes "\<not> precomputed lo yo ro"
  shows "MerkleTree_new H num d lo yo ro =
     Inr \<lparr>leaves = leafDigests H num d, layers = layersFrom H (leafDigests H num d), data = d,
          root = lookup (last (layersFrom H (leafDigests H num d))) 0\<rparr>"
proof -
  let ?lv = "leafDigests H num d"
  have fresh: "(case hashData H num d of
             Inl e \<Rightarrow> Inl e
           | Inr lv \<Rightarrow>
               (case buildTree H \<lparr>leaves = lv, layers = [lv], data = d, root = None\<rparr> of
                  Inl e \<Rightarrow> Inl e
                | Inr t \<Rightarrow>
                    (case lookup (layers t) (int (length (layers t)) - 1) of
                       None \<Rightarrow> Inl TypeError
                     | Some lastLayer \<Rightarrow> Inr (t\<lparr>root := lookup lastLayer 0\<rparr>))))
     = Inr \<lparr>leaves = ?lv, layers = layersFrom H ?lv, data = d,
          root = lookup (last (layersFrom H ?lv)) 0\<rparr>"
    by (simp add: hashData_Inr buildTree_layersFrom lookup_last layersFrom_nonempty)
  from assms show ?thesis
    unfolding MerkleTree_new_def fresh
    by (auto simp: precomputed_def split: option.splits bool.splits)
qed

lemma layersFrom_Suc_nth:
  "i + 1 < length (layersFrom H xs) \<Longrightarrow>
   layersFrom H xs ! (i + 1) = pairUp H (layersFrom H xs ! i)"
proof (induction H xs arbitrary: i rule: layersFrom.induct)
  case (1 H xs)
  show ?case
  proof (cases "1 < length xs")
    case False
    with "1.prems" show ?thesis by (simp add: layersFrom_short)
  next
    case True
    obtain ls where ls: "layersFrom H (pairUp H xs) = pairUp H xs # ls"
      using layersFrom_Cons by blast
    show ?thesis
    proof (cases i)
      case 0
      with True ls show ?thesis by (simp add: layersFrom_long)
    next
      case (Suc i')
      with "1.prems" True have "i' + 1 < length (layersFrom H (pairUp H xs))"
        by (simp add: layersFrom_long)
      from "1.IH" [OF True this] Suc True show ?thesis by (simp add: layersFrom_long)
    qed
  qed
qed

lemma indexAt_div: "indexAt k i = k div 2 ^ i"
proof (induction i)
  case (Suc i)
  have "k div 2 ^ i div 2 = k div (2 ^ i * 2)" by (simp only: div_mult2_eq)
  with Suc show ?case by (simp add: mult.commute)
qed simp

lemma proofPath_nth:
  "i + 1 < length ls \<Longrightarrow> proofPath ls c ! i = proofEntry (ls ! i) (c div 2 ^ i)"
proof (induction ls c arbitrary: i rule: proofPath.induct)
  case (1 l l' ls c)
  show ?case
  proof (cases i)
    case 0
    then show ?thesis by simp
  next
    case (Suc i')
    with "1.prems" have "i' + 1 < length (l' # ls)" by simp
    from "1.IH" [OF this] Suc show ?thesis
      by (simp add: zdiv_zmult2_eq)
  qed
qed simp_all

lemma layersFrom_index_bound:
  "k < length xs \<Longrightarrow> i < length (layersFrom H xs) \<Longrightarrow> k div 2 ^ i < length (layersFrom H xs ! i)"
proof (induction i)
  case 0
  then show ?case using layersFrom_Cons [of H xs] by auto
next
  case (Suc i)
  then have "k div 2 ^ i < length (layersFrom H xs ! i)" by simp
  moreover have "layersFrom H xs ! (i + 1) = pairUp H (layersFrom H xs ! i)"
    using Suc.prems layersFrom_Suc_nth [of i H xs] by simp
  moreover have "k div 2 ^ Suc i = k div 2 ^ i div 2"
    by (simp add: div_mult2_eq [symmetric] mult.commute)
  ultimately show ?case
    by (simp add: length_pairUp del: power_Suc)
qed

lemma ceiling_half: "\<lceil>real n / 2\<rceil> = int ((n + 1) div 2)"
  by linarith

lemma canonicalRecord_example:
  "stringifyAccounts (\<lambda>n::nat. [hexDigit n])
     [\<lparr>identifier = ''ACC1'', balances = [\<lparr>asset = ''eth'', balance = 5\<rparr>, \<lparr>asset = ''btc'', balance = 7\<rparr>]\<rparr>]
   = [''ACC1:eth5,btc7'']"
  by code_simp

lemma hashPair_Some_right: "hashPair H s (Some x) = Inr (H (hexDecode (toStr s @ x)))"
  by (cases s) (simp_all add: hashPair_def toStr_def)

lemma hashPair_Some_left: "hashPair H (Some x) s = Inr (H (hexDecode (x @ toStr s)))"
  by (cases s) (simp_all add: hashPair_def toStr_def)

lemma verifyLeaf_loop_Some: "\<exists>y. verifyLeaf_loop H (Some x) p = Inr (Some y)"
  by (induction p arbitrary: x) (simp_all add: hashPair_Some_right hashPair_Some_left)

lemma verifyLeaf_Some: "\<exists>b. verifyLeaf H (Some x) p r = Inr b"
  using verifyLeaf_loop_Some [of H x p] by (auto simp: verifyLeaf_def)

lemma verifyLoop_counts:
  "verifyLoop H lv ls r i c e =
     Inr (c + length (filter (leafVerifies H lv ls r) [i..<length lv]),
          e + length (filter (\<lambda>j. \<not> leafVerifies H lv ls r j) [i..<length lv]))"
proof (induction H lv ls r i c e rule: verifyLoop.induct)
  case (1 H lv ls r i c e)
  show ?case
  proof (cases "i < length lv")
    case False
    then show ?thesis by (subst verifyLoop.simps) simp
  next
    case True
    let ?p = "proofPath ls (int i)"
    have g: "getProof ls (int i) = Inr ?p" by (rule getProof_path)
    from True have lk: "lookup lv (int i) = Some (lv ! i)" by (rule lookup_nat)
    obtain b where b: "verifyLeaf H (lookup lv (int i)) ?p r = Inr b"
      using verifyLeaf_Some [of H "lv ! i" ?p r] lk by auto
    have lvf: "leafVerifies H lv ls r i = b"
      by (simp add: leafVerifies_def g b)
    have upt: "[i..<length lv] = i # [i + 1..<length lv]"
      using True by (simp add: upt_conv_Cons)
    show ?thesis
    proof (cases b)
      case True
      from "1.IH"(1) [OF \<open>i < length lv\<close> refl g b True] g b True lvf upt show ?thesis
        by (subst verifyLoop.simps) (simp add: \<open>i < length lv\<close>)
    next
      case False
      from "1.IH"(2) [OF \<open>i < length lv\<close> refl g b False] g b False lvf upt show ?thesis
        by (subst verifyLoop.simps) (simp add: \<open>i < length lv\<close>)
    qed
  qed
qed


lemma verifyTree_example:
  "verifyTree hexEncode \<lparr>leaves = [''61'', ''62'', ''63''],
        layers = [[''61'', ''62'', ''63''], [''6162'', ''6363''], [''61626363'']],
        data = Generic [''a'', ''b'', ''c''] :: nat TreeData, root = Some ''00''\<rparr>
   = Inr \<lparr>status = False, completed = 0, errors = 3\<rparr>"
  by code_simp

text \<open>The three properties of a tree that the constructor's hashing branch returned.\<close>

lemma fresh_tree_proofs_verify_at:
  assumes "\<not> precomputed leavesOpt layersOpt rootOpt"
    and "MerkleTree_new H num d leavesOpt layersOpt rootOpt = Inr t"
    and "k < length (leaves t)"
  shows "\<exists>p. MerkleTree_getProof t (int k) = Inr p
           \<and> verifyLeaf H (lookup (leaves t) (int k)) p (root t) = Inr True"
proof -
  let ?lv = "leafDigests H num d"
  from assms(1,2) have t: "t = \<lparr>leaves = ?lv, layers = layersFrom H ?lv, data = d,
      root = lookup (last (layersFrom H ?lv)) 0\<rparr>"
    by (simp add: MerkleTree_new_fresh)
  with assms(3) have k: "k < length ?lv" by simp
  have "MerkleTree_getProof t (int k) = Inr (proofPath (layersFrom H ?lv) (int k))"
    by (simp add: MerkleTree_getProof_def getProof_path t)
  moreover have "verifyLeaf H (lookup (leaves t) (int k)) (proofPath (layersFrom H ?lv) (int k)) (root t)
      = Inr True"
    using k by (simp add: verifyLeaf_def t lookup_nat verifyLeaf_loop_layersFrom)
  ultimately show ?thesis by blast
qed

lemma fresh_tree_layer_invariants_at:
  assumes "\<not> precomputed leavesOpt layersOpt rootOpt"
    and "MerkleTree_new H num d leavesOpt layersOpt rootOpt = Inr t"
    and "i + 1 < length (layers t)"
  shows "int (length (layers t ! (i + 1))) = \<lceil>real (length (layers t ! i)) / 2\<rceil>
       \<and> (\<forall>j < length (layers t ! (i + 1)).
            2 * j < length (layers t ! i)
          \<and> (2 * j + 1 < length (layers t ! i) \<longrightarrow>
               MerkleTree_hashPair H (lookup (layers t ! i) (int (2 * j)))
                   (lookup (layers t ! i) (int (2 * j + 1)))
                 = Inr (layers t ! (i + 1) ! j))
          \<and> (\<not> 2 * j + 1 < length (layers t ! i) \<longrightarrow>
               MerkleTree_hashPair H (lookup (layers t ! i) (int (2 * j)))
                   (lookup (layers t ! i) (int (2 * j)))
                 = Inr (layers t ! (i + 1) ! j)))"
proof -
  let ?ls = "layersFrom H (leafDigests H num d)"
  from assms(1,2) have t: "layers t = ?ls"
    by (auto simp: MerkleTree_new_fresh)
  with assms(3) have nxt: "?ls ! (i + 1) = pairUp H (?ls ! i)"
    using layersFrom_Suc_nth [of i H "leafDigests H num d"] by simp
  have len: "int (length (?ls ! (i + 1))) = \<lceil>real (length (?ls ! i)) / 2\<rceil>"
    by (simp only: nxt length_pairUp ceiling_half)
  have node: "2 * j < length (?ls ! i)
          \<and> (2 * j + 1 < length (?ls ! i) \<longrightarrow>
               MerkleTree_hashPair H (lookup (?ls ! i) (int (2 * j)))
                   (lookup (?ls ! i) (int (2 * j + 1)))
                 = Inr (?ls ! (i + 1) ! j))
          \<and> (\<not> 2 * j + 1 < length (?ls ! i) \<longrightarrow>
               MerkleTree_hashPair H (lookup (?ls ! i) (int (2 * j)))
                   (lookup (?ls ! i) (int (2 * j)))
                 = Inr (?ls ! (i + 1) ! j))"
    if j: "j < length (?ls ! (i + 1))" for j
  proof -
    from j have j': "j < length (pairUp H (?ls ! i))" by (simp only: nxt)
    then have b: "2 * j < length (?ls ! i)" by (simp add: length_pairUp)
    have l0: "lookup (?ls ! i) (int (2 * j)) = Some (?ls ! i ! (2 * j))"
      using b by (rule lookup_nat)
    have l1: "lookup (?ls ! i) (int (2 * j + 1)) = Some (?ls ! i ! (2 * j + 1))"
      if "2 * j + 1 < length (?ls ! i)"
      using that by (rule lookup_nat)
    have p1: "?ls ! (i + 1) ! j = pairDigest H (?ls ! i ! (2 * j)) (?ls ! i ! (2 * j + 1))"
      if "2 * j + 1 < length (?ls ! i)"
      unfolding nxt using pairUp_nth [OF j'] that by simp
    have p0: "?ls ! (i + 1) ! j = pairDigest H (?ls ! i ! (2 * j)) (?ls ! i ! (2 * j))"
      if "\<not> 2 * j + 1 < length (?ls ! i)"
      unfolding nxt using pairUp_nth [OF j'] that by simp
    show ?thesis
    proof (intro conjI impI)
      show "2 * j < length (?ls ! i)" by (rule b)
      show "MerkleTree_hashPair H (lookup (?ls ! i) (int (2 * j)))
                   (lookup (?ls ! i) (int (2 * j + 1))) = Inr (?ls ! (i + 1) ! j)"
        if "2 * j + 1 < length (?ls ! i)"
        unfolding MerkleTree_hashPair_eq l0 l1 [OF that] hashPair_Some p1 [OF that] ..
      show "MerkleTree_hashPair H (lookup (?ls ! i) (int (2 * j)))
                   (lookup (?ls ! i) (int (2 * j))) = Inr (?ls ! (i + 1) ! j)"
        if "\<not> 2 * j + 1 < length (?ls ! i)"
        unfolding MerkleTree_hashPair_eq l0 hashPair_Some p0 [OF that] ..
    qed
  qed
  show ?thesis unfolding t using len node by blast
qed

lemma getProof_steps_at:
  assumes "\<not> precomputed leavesOpt layersOpt rootOpt"
    and "MerkleTree_new H num d leavesOpt layersOpt rootOpt = Inr t"
    and "k < length (leaves t)"
  shows "\<exists>p. MerkleTree_getProof t (int k) = Inr p
           \<and> length p + 1 = length (layers t)
           \<and> (\<forall>i < length p.
                indexAt k i < length (layers t ! i)
              \<and> indexAt k (i + 1) = indexAt k i div 2
              \<and> p ! i =
                  (if odd (indexAt k i)
                   then \<lparr>sibling = Some (layers t ! i ! (indexAt k i - 1)), direction = Left\<rparr>
                   else if indexAt k i + 1 < length (layers t ! i)
                   then \<lparr>sibling = Some (layers t ! i ! (indexAt k i + 1)), direction = Right\<rparr>
                   else \<lparr>sibling = Some (layers t ! i ! indexAt k i), direction = Right\<rparr>))"
proof -
  let ?lv = "leafDigests H num d"
  let ?ls = "layersFrom H ?lv"
  let ?p = "proofPath ?ls (int k)"
  from assms(1,2) have t: "layers t = ?ls" "leaves t = ?lv"
    by (auto simp: MerkleTree_new_fresh)
  with assms(3) have k: "k < length ?lv" by simp
  have g: "MerkleTree_getProof t (int k) = Inr ?p"
    by (simp add: MerkleTree_getProof_def getProof_path t)
  have len: "length ?p + 1 = length ?ls"
    using layersFrom_nonempty [of H ?lv] by (cases ?ls) (simp_all add: length_proofPath)
  have step: "indexAt k i < length (?ls ! i)
              \<and> indexAt k (i + 1) = indexAt k i div 2
              \<and> ?p ! i =
                  (if odd (indexAt k i)
                   then \<lparr>sibling = Some (?ls ! i ! (indexAt k i - 1)), direction = Left\<rparr>
                   else if indexAt k i + 1 < length (?ls ! i)
                   then \<lparr>sibling = Some (?ls ! i ! (indexAt k i + 1)), direction = Right\<rparr>
                   else \<lparr>sibling = Some (?ls ! i ! indexAt k i), direction = Right\<rparr>)"
    if i: "i < length ?p" for i
  proof -
    from i len have i': "i + 1 < length ?ls" by simp
    then have b: "indexAt k i < length (?ls ! i)"
      using layersFrom_index_bound [OF k, of i H] by (simp add: indexAt_div)
    have "?p ! i = proofEntry (?ls ! i) (int k div 2 ^ i)"
      using i' by (rule proofPath_nth)
    also have "int k div 2 ^ i = int (indexAt k i)"
      by (simp add: indexAt_div zdiv_int)
    finally have "?p ! i = proofEntry (?ls ! i) (int (indexAt k i))" .
    with b show ?thesis by (simp add: proofEntry_in_range)
  qed
  from g len step show ?thesis unfolding t by blast
qed

section \<open>The claims\<close>

text \<open>
  Claim C1. The constructor's hashing branch returns a tree, from any data, and in it,
  for every index \<open>k\<close> below the number of leaves, \<open>getProof\<close> returns a proof, and
  \<open>verifyLeaf\<close> of the \<open>k\<close>-th leaf with that proof against the tree's root returns
  \<open>true\<close>. This holds for every digest function \<open>H\<close>.
\<close>

theorem fresh_tree_proofs_verify:
  assumes "\<not> precomputed leavesOpt layersOpt rootOpt"
  shows "\<exists>t. MerkleTree_new H num d leavesOpt layersOpt rootOpt = Inr t
           \<and> (\<forall>k < length (leaves t).
                 \<exists>p. MerkleTree_getProof t (int k) = Inr p
                    \<and> verifyLeaf H (lookup (leaves t) (int k)) p (root t) = Inr True)"
proof -
  from assms obtain t where t: "MerkleTree_new H num d leavesOpt layersOpt rootOpt = Inr t"
    by (simp add: MerkleTree_new_fresh)
  with assms show ?thesis
    by (blast intro: fresh_tree_proofs_verify_at)
qed

text \<open>The three-leaf tree of the strings a, b, c under the stand-in digest, leaf 2.\<close>

theorem fresh_tree_proofs_verify_witness:
  "\<not> precomputed None None None
   \<and> MerkleTree_new hexEncode (\<lambda>n::nat. []) (Generic [''a'', ''b'', ''c'']) None None None
       = Inr \<lparr>leaves = [''61'', ''62'', ''63''],
              layers = [[''61'', ''62'', ''63''], [''6162'', ''6363''], [''61626363'']],
              data = Generic [''a'', ''b'', ''c''], root = Some ''61626363''\<rparr>
   \<and> (\<exists>p. MerkleTree_getProof
              \<lparr>leaves = [''61'', ''62'', ''63''],
               layers = [[''61'', ''62'', ''63''], [''6162'', ''6363''], [''61626363'']],
               data = Generic [''a'', ''b'', ''c''] :: nat TreeData, root = Some ''61626363''\<rparr> (int 2) = Inr p
          \<and> verifyLeaf hexEncode (lookup [''61'', ''62'', ''63''] (int 2)) p (Some ''61626363'') = Inr True)"
proof -
  let ?t = "\<lparr>leaves = [''61'', ''62'', ''63''],
              layers = [[''61'', ''62'', ''63''], [''6162'', ''6363''], [''61626363'']],
              data = Generic [''a'', ''b'', ''c''] :: nat TreeData, root = Some ''61626363''\<rparr>"
  have a: "\<not> precomputed None None None" by (simp add: precomputed_def)
  have b: "MerkleTree_new hexEncode (\<lambda>n::nat. []) (Generic [''a'', ''b'', ''c'']) None None None = Inr ?t"
    by code_simp
  from fresh_tree_proofs_verify [OF a, of hexEncode "\<lambda>n::nat. []" "Generic [''a'', ''b'', ''c'']"]
  have "\<forall>k < length (leaves ?t).
          \<exists>p. MerkleTree_getProof ?t (int k) = Inr p
             \<and> verifyLeaf hexEncode (lookup (leaves ?t) (int k)) p (root ?t) = Inr True"
    unfolding b by blast
  from this [THEN spec, of 2] a b show ?thesis by simp
qed

text \<open>
  Claim C2. The constructor's hashing branch returns a tree in which every layer above
  the leaves has \<open>\<lceil>n / 2\<rceil>\<close> nodes, \<open>n\<close> the length of the layer below, and its node \<open>j\<close> is
  \<open>hashPair\<close> of the nodes \<open>2j\<close> and \<open>2j + 1\<close> below, or of node \<open>2j\<close> with itself when
  \<open>2j + 1\<close> is past the end.
\<close>

theorem fresh_tree_layer_invariants:
  assumes "\<not> precomputed leavesOpt layersOpt rootOpt"
  shows "\<exists>t. MerkleTree_new H num d leavesOpt layersOpt rootOpt = Inr t
     \<and> (\<forall>i. i + 1 < length (layers t) \<longrightarrow>
         int (length (layers t ! (i + 1))) = \<lceil>real (length (layers t ! i)) / 2\<rceil>
       \<and> (\<forall>j < length (layers t ! (i + 1)).
            2 * j < length (layers t ! i)
          \<and> (2 * j + 1 < length (layers t ! i) \<longrightarrow>
               MerkleTree_hashPair H (lookup (layers t ! i) (int (2 * j)))
                   (lookup (layers t ! i) (int (2 * j + 1)))
                 = Inr (layers t ! (i + 1) ! j))
          \<and> (\<not> 2 * j + 1 < length (layers t ! i) \<longrightarrow>
               MerkleTree_hashPair H (lookup (layers t ! i) (int (2 * j)))
                   (lookup (layers t ! i) (int (2 * j)))
                 = Inr (layers t ! (i + 1) ! j))))"
proof -
  from assms obtain t where t: "MerkleTree_new H num d leavesOpt layersOpt rootOpt = Inr t"
    by (simp add: MerkleTree_new_fresh)
  from fresh_tree_layer_invariants_at [OF assms t] t show ?thesis
    by blast
qed

text \<open>The same tree, its layers 0 and 1.\<close>

theorem fresh_tree_layer_invariants_witness:
  "\<not> precomputed None None None
   \<and> MerkleTree_new hexEncode (\<lambda>n::nat. []) (Generic [''a'', ''b'', ''c'']) None None None
       = Inr \<lparr>leaves = [''61'', ''62'', ''63''],
              layers = [[''61'', ''62'', ''63''], [''6162'', ''6363''], [''61626363'']],
              data = Generic [''a'', ''b'', ''c''], root = Some ''61626363''\<rparr>
   \<and> int (length [''6162'', ''6363'']) = \<lceil>real (length [''61'', ''62'', ''63'']) / 2\<rceil>
   \<and> MerkleTree_hashPair hexEncode (Some ''61'') (Some ''62'') = Inr ''6162''
   \<and> MerkleTree_hashPair hexEncode (Some ''63'') (Some ''63'') = Inr ''6363''"
proof -
  let ?t = "\<lparr>leaves = [''61'', ''62'', ''63''],
              layers = [[''61'', ''62'', ''63''], [''6162'', ''6363''], [''61626363'']],
              data = Generic [''a'', ''b'', ''c''] :: nat TreeData, root = Some ''61626363''\<rparr>"
  have a: "\<not> precomputed None None None" by (simp add: precomputed_def)
  have b: "MerkleTree_new hexEncode (\<lambda>n::nat. []) (Generic [''a'', ''b'', ''c'']) None None None = Inr ?t"
    by code_simp
  from fresh_tree_layer_invariants [OF a, of hexEncode "\<lambda>n::nat. []" "Generic [''a'', ''b'', ''c'']"]
  have "\<forall>i. i + 1 < length (layers ?t) \<longrightarrow>
         int (length (layers ?t ! (i + 1))) = \<lceil>real (length (layers ?t ! i)) / 2\<rceil>
       \<and> (\<forall>j < length (layers ?t ! (i + 1)).
            2 * j < length (layers ?t ! i)
          \<and> (2 * j + 1 < length (layers ?t ! i) \<longrightarrow>
               MerkleTree_hashPair hexEncode (lookup (layers ?t ! i) (int (2 * j)))
                   (lookup (layers ?t ! i) (int (2 * j + 1)))
                 = Inr (layers ?t ! (i + 1) ! j))
          \<and> (\<not> 2 * j + 1 < length (layers ?t ! i) \<longrightarrow>
               MerkleTree_hashPair hexEncode (lookup (layers ?t ! i) (int (2 * j)))
                   (lookup (layers ?t ! i) (int (2 * j)))
                 = Inr (layers ?t ! (i + 1) ! j)))"
    unfolding b by blast
  from this [THEN spec, of 0] have inv:
       "int (length (layers ?t ! (0 + 1))) = \<lceil>real (length (layers ?t ! 0)) / 2\<rceil>
       \<and> (\<forall>j < length (layers ?t ! (0 + 1)).
            2 * j < length (layers ?t ! 0)
          \<and> (2 * j + 1 < length (layers ?t ! 0) \<longrightarrow>
               MerkleTree_hashPair hexEncode (lookup (layers ?t ! 0) (int (2 * j)))
                   (lookup (layers ?t ! 0) (int (2 * j + 1)))
                 = Inr (layers ?t ! (0 + 1) ! j))
          \<and> (\<not> 2 * j + 1 < length (layers ?t ! 0) \<longrightarrow>
               MerkleTree_hashPair hexEncode (lookup (layers ?t ! 0) (int (2 * j)))
                   (lookup (layers ?t ! 0) (int (2 * j)))
                 = Inr (layers ?t ! (0 + 1) ! j)))"
    by simp
  from inv have len: "int (length [''6162'', ''6363'']) = \<lceil>real (length [''61'', ''62'', ''63'']) / 2\<rceil>"
    by simp
  from inv [THEN conjunct2, THEN spec, of 0]
  have n0: "MerkleTree_hashPair hexEncode (Some ''61'') (Some ''62'') = Inr ''6162''"
    by (simp add: lookup_def)
  from inv [THEN conjunct2, THEN spec, of 1]
  have n1: "MerkleTree_hashPair hexEncode (Some ''63'') (Some ''63'') = Inr ''6363''"
    by (simp add: lookup_def)
  from a b len n0 n1 show ?thesis by simp
qed

text \<open>
  Claim C3, as the code has it. \<open>getProof\<close> has no range check and no failure: for every
  integer index, inside or outside the leaves, and for every array of layers, it returns
  a proof with one step per layer but the last.
\<close>

theorem getProof_never_fails:
  "\<exists>p. getProof ls index = Inr p \<and> MerkleTree_getProof t index = getProof (layers t) index
       \<and> length p = length ls - 1"
  by (simp add: getProof_path length_proofPath MerkleTree_getProof_def)

text \<open>
  Claim C3 as stated fails: on the three-leaf tree the indices 3 and -1 get proofs made
  of nodes of the tree, and index 7 on its layers gets a proof of \<open>undefined\<close> siblings.
\<close>

theorem getProof_out_of_range_returns:
  "MerkleTree_new hexEncode (\<lambda>n::nat. []) (Generic [''a'', ''b'', ''c'']) None None None
       = Inr \<lparr>leaves = [''61'', ''62'', ''63''],
              layers = [[''61'', ''62'', ''63''], [''6162'', ''6363''], [''61626363'']],
              data = Generic [''a'', ''b'', ''c''], root = Some ''61626363''\<rparr>
   \<and> MerkleTree_getProof
         \<lparr>leaves = [''61'', ''62'', ''63''],
          layers = [[''61'', ''62'', ''63''], [''6162'', ''6363''], [''61626363'']],
          data = Generic [''a'', ''b'', ''c''] :: nat TreeData, root = Some ''61626363''\<rparr> 3
       = Inr [\<lparr>sibling = Some ''63'', direction = Left\<rparr>,
              \<lparr>sibling = Some ''6162'', direction = Left\<rparr>]
   \<and> MerkleTree_getProof
         \<lparr>leaves = [''61'', ''62'', ''63''],
          layers = [[''61'', ''62'', ''63''], [''6162'', ''6363''], [''61626363'']],
          data = Generic [''a'', ''b'', ''c''] :: nat TreeData, root = Some ''61626363''\<rparr> (- 1)
       = Inr [\<lparr>sibling = Some ''61'', direction = Right\<rparr>,
              \<lparr>sibling = Some ''6162'', direction = Right\<rparr>]
   \<and> getProof [[''61'', ''62'', ''63''], [''6162'', ''6363''], [''61626363'']] 7
       = Inr [\<lparr>sibling = None, direction = Right\<rparr>, \<lparr>sibling = None, direction = Right\<rparr>]"
  by code_simp

text \<open>
  Claim C4. The constructor's hashing branch returns a tree in which the proof for a
  leaf index \<open>k\<close> has one step per layer but the last. With \<open>c\<close> the index at layer \<open>i\<close>
  (\<open>k\<close> at the leaves, halved and rounded down at each layer), \<open>c\<close> is inside the layer and
  the step is: the node at \<open>c - 1\<close>, left, when \<open>c\<close> is odd; the node at \<open>c + 1\<close>, right,
  when \<open>c\<close> is even and \<open>c + 1\<close> is inside the layer; the node at \<open>c\<close> itself, right,
  otherwise.
\<close>

theorem getProof_steps:
  assumes "\<not> precomputed leavesOpt layersOpt rootOpt"
  shows "\<exists>t. MerkleTree_new H num d leavesOpt layersOpt rootOpt = Inr t
     \<and> (\<forall>k < length (leaves t).
          \<exists>p. MerkleTree_getProof t (int k) = Inr p
           \<and> length p + 1 = length (layers t)
           \<and> (\<forall>i < length p.
                indexAt k i < length (layers t ! i)
              \<and> indexAt k (i + 1) = indexAt k i div 2
              \<and> p ! i =
                  (if odd (indexAt k i)
                   then \<lparr>sibling = Some (layers t ! i ! (indexAt k i - 1)), direction = Left\<rparr>
                   else if indexAt k i + 1 < length (layers t ! i)
                   then \<lparr>sibling = Some (layers t ! i ! (indexAt k i + 1)), direction = Right\<rparr>
                   else \<lparr>sibling = Some (layers t ! i ! indexAt k i), direction = Right\<rparr>)))"
proof -
  from assms obtain t where t: "MerkleTree_new H num d leavesOpt layersOpt rootOpt = Inr t"
    by (simp add: MerkleTree_new_fresh)
  show ?thesis
  proof (intro exI [of _ t] conjI allI impI)
    show "MerkleTree_new H num d leavesOpt layersOpt rootOpt = Inr t" by (rule t)
  next
    fix k assume "k < length (leaves t)"
    then show "\<exists>p. MerkleTree_getProof t (int k) = Inr p
           \<and> length p + 1 = length (layers t)
           \<and> (\<forall>i < length p.
                indexAt k i < length (layers t ! i)
              \<and> indexAt k (i + 1) = indexAt k i div 2
              \<and> p ! i =
                  (if odd (indexAt k i)
                   then \<lparr>sibling = Some (layers t ! i ! (indexAt k i - 1)), direction = Left\<rparr>
                   else if indexAt k i + 1 < length (layers t ! i)
                   then \<lparr>sibling = Some (layers t ! i ! (indexAt k i + 1)), direction = Right\<rparr>
                   else \<lparr>sibling = Some (layers t ! i ! indexAt k i), direction = Right\<rparr>))"
      by (rule getProof_steps_at [OF assms t])
  qed
qed

text \<open>The same tree, leaf 1: the sibling on the left, then the self-paired node on the right.\<close>

theorem getProof_steps_witness:
  "\<not> precomputed None None None
   \<and> MerkleTree_new hexEncode (\<lambda>n::nat. []) (Generic [''a'', ''b'', ''c'']) None None None
       = Inr \<lparr>leaves = [''61'', ''62'', ''63''],
              layers = [[''61'', ''62'', ''63''], [''6162'', ''6363''], [''61626363'']],
              data = Generic [''a'', ''b'', ''c''], root = Some ''61626363''\<rparr>
   \<and> MerkleTree_getProof
         \<lparr>leaves = [''61'', ''62'', ''63''],
          layers = [[''61'', ''62'', ''63''], [''6162'', ''6363''], [''61626363'']],
          data = Generic [''a'', ''b'', ''c''] :: nat TreeData, root = Some ''61626363''\<rparr> (int 1)
       = Inr [\<lparr>sibling = Some ''61'', direction = Left\<rparr>,
              \<lparr>sibling = Some ''6363'', direction = Right\<rparr>]"
proof -
  let ?t = "\<lparr>leaves = [''61'', ''62'', ''63''],
              layers = [[''61'', ''62'', ''63''], [''6162'', ''6363''], [''61626363'']],
              data = Generic [''a'', ''b'', ''c''] :: nat TreeData, root = Some ''61626363''\<rparr>"
  have a: "\<not> precomputed None None None" by (simp add: precomputed_def)
  have b: "MerkleTree_new hexEncode (\<lambda>n::nat. []) (Generic [''a'', ''b'', ''c'']) None None None = Inr ?t"
    by code_simp
  from getProof_steps [OF a, of hexEncode "\<lambda>n::nat. []" "Generic [''a'', ''b'', ''c'']"]
  have "\<forall>k < length (leaves ?t).
          \<exists>p. MerkleTree_getProof ?t (int k) = Inr p
           \<and> length p + 1 = length (layers ?t)
           \<and> (\<forall>i < length p.
                indexAt k i < length (layers ?t ! i)
              \<and> indexAt k (i + 1) = indexAt k i div 2
              \<and> p ! i =
                  (if odd (indexAt k i)
                   then \<lparr>sibling = Some (layers ?t ! i ! (indexAt k i - 1)), direction = Left\<rparr>
                   else if indexAt k i + 1 < length (layers ?t ! i)
                   then \<lparr>sibling = Some (layers ?t ! i ! (indexAt k i + 1)), direction = Right\<rparr>
                   else \<lparr>sibling = Some (layers ?t ! i ! indexAt k i), direction = Right\<rparr>))"
    unfolding b by blast
  from this [THEN spec, of 1] obtain p where
    p: "MerkleTree_getProof ?t (int 1) = Inr p" and len: "length p + 1 = length (layers ?t)"
    and st: "\<forall>i < length p.
                indexAt 1 i < length (layers ?t ! i)
              \<and> indexAt 1 (i + 1) = indexAt 1 i div 2
              \<and> p ! i =
                  (if odd (indexAt 1 i)
                   then \<lparr>sibling = Some (layers ?t ! i ! (indexAt 1 i - 1)), direction = Left\<rparr>
                   else if indexAt 1 i + 1 < length (layers ?t ! i)
                   then \<lparr>sibling = Some (layers ?t ! i ! (indexAt 1 i + 1)), direction = Right\<rparr>
                   else \<lparr>sibling = Some (layers ?t ! i ! indexAt 1 i), direction = Right\<rparr>)"
    by auto
  from len have l2: "length p = 2" by simp
  from st [THEN spec, of 0] l2 have p0: "p ! 0 = \<lparr>sibling = Some ''61'', direction = Left\<rparr>"
    by simp
  from st [THEN spec, of 1] l2 have p1: "p ! 1 = \<lparr>sibling = Some ''6363'', direction = Right\<rparr>"
    by simp
  from l2 p0 p1 have "p = [\<lparr>sibling = Some ''61'', direction = Left\<rparr>,
              \<lparr>sibling = Some ''6363'', direction = Right\<rparr>]"
    by (cases p; cases "tl p"; cases "tl (tl p)") auto
  with a b p show ?thesis by simp
qed

text \<open>
  Claim C5. For a non-empty list of leaves \<open>L\<close>, \<open>workerBuildTree\<close> and the class's
  \<open>buildTree\<close> return the same layers; the last layer has length 1; the number of
  layers is \<open>\<lceil>log\<^sub>2 (length L)\<rceil> + 1\<close>; and a single leaf gives the one layer \<open>[L]\<close>, whose
  element at position 0, the root, is that leaf, for every \<open>H\<close>: nothing was hashed.
\<close>

theorem layer_count:
  assumes "L \<noteq> []"
  shows "\<exists>ls. workerBuildTree H L = Inr ls
           \<and> buildTree H \<lparr>leaves = L, layers = [L], data = d, root = r\<rparr>
               = Inr \<lparr>leaves = L, layers = ls, data = d, root = r\<rparr>
           \<and> length (last ls) = 1
           \<and> int (length ls) = \<lceil>log 2 (real (length L))\<rceil> + 1
           \<and> (length L = 1 \<longrightarrow> ls = [L] \<and> lookup (last ls) 0 = Some (L ! 0))"
proof -
  have one: "layersFrom H L = [L]" "lookup L 0 = Some (L ! 0)" if "length L = 1"
    using that by (simp_all add: layersFrom_short lookup_def)
  show ?thesis
  proof (intro exI [of _ "layersFrom H L"] conjI impI)
    show "workerBuildTree H L = Inr (layersFrom H L)"
      by (rule workerBuildTree_layersFrom)
    show "buildTree H \<lparr>leaves = L, layers = [L], data = d, root = r\<rparr>
            = Inr \<lparr>leaves = L, layers = layersFrom H L, data = d, root = r\<rparr>"
      by (rule buildTree_layersFrom)
    show "length (last (layersFrom H L)) = 1"
      using assms by (rule last_layersFrom_length)
    show "int (length (layersFrom H L)) = \<lceil>log 2 (real (length L))\<rceil> + 1"
      using assms by (rule length_layersFrom)
    show "layersFrom H L = [L]" if "length L = 1"
      using that by (rule one)
    show "lookup (last (layersFrom H L)) 0 = Some (L ! 0)" if "length L = 1"
      using that by (simp add: one)
  qed
qed

text \<open>Three leaves give \<open>\<lceil>log\<^sub>2 3\<rceil> + 1\<close> layers, one leaf gives one layer.\<close>

theorem layer_count_witness:
  "[''61'', ''62'', ''63''] \<noteq> []
   \<and> (\<exists>ls. workerBuildTree hexEncode [''61'', ''62'', ''63''] = Inr ls
         \<and> length (last ls) = 1
         \<and> int (length ls) = \<lceil>log 2 (real (length [''61'', ''62'', ''63'']))\<rceil> + 1)
   \<and> [''61''] \<noteq> [] \<and> length [''61''] = 1
   \<and> workerBuildTree hexEncode [''61''] = Inr [[''61'']]"
proof -
  have a: "[''61'', ''62'', ''63''] \<noteq> []" by simp
  have b: "[''61''] \<noteq> []" by simp
  from layer_count [OF b, of hexEncode "Generic [] :: nat TreeData" None]
  have c: "workerBuildTree hexEncode [''61''] = Inr [[''61'']]" by auto
  from layer_count [OF a, of hexEncode "Generic [] :: nat TreeData" None] a c show ?thesis
    by auto
qed

text \<open>
  Claim C6. \<open>hashData\<close> on accounts digests, for each account, the identifier, a colon,
  and the asset-balance pairs separated by commas, nothing added; on plain strings it
  digests each string as it is. It never fails.
\<close>

theorem hashData_canonical:
  "hashData H num (Balances accounts) = Inr (map (\<lambda>a. H (utf8 (canonicalRecord num a))) accounts)
   \<and> hashData H num (Generic strs) = Inr (map (\<lambda>s. H (utf8 s)) strs)"
  by (simp add: hashData_Inr leafDigests_def stringifyAccounts_def canonicalRecord_def
      join_balancePairs comp_def)

text \<open>
  Claim C7. On any tree, \<open>verifyTree\<close> (and the worker's \<open>handleValidate\<close>) returns a
  result and no exception: \<open>completed\<close> counts all the leaf indices whose proof verifies
  against the root, \<open>errors\<close> all the others, the two add up to the number of leaves, and
  \<open>status\<close> is true exactly when \<open>errors\<close> is 0.
\<close>

theorem verifyTree_counts:
  "\<exists>res. verifyTree H t = Inr res \<and> handleValidate H t = Inr res
      \<and> status res = (errors res = 0)
      \<and> completed res + errors res = length (leaves t)
      \<and> completed res
          = length (filter (leafVerifies H (leaves t) (layers t) (root t)) [0..<length (leaves t)])
      \<and> errors res
          = length (filter (\<lambda>i. \<not> leafVerifies H (leaves t) (layers t) (root t) i)
              [0..<length (leaves t)])"
proof -
  let ?P = "leafVerifies H (leaves t) (layers t) (root t)"
  let ?xs = "[0..<length (leaves t)]"
  have "length (filter ?P ?xs) + length (filter (\<lambda>i. \<not> ?P i) ?xs) = length ?xs"
    by (rule sum_length_filter_compl)
  then show ?thesis
    by (simp add: verifyTree_def handleValidate_def verifyLoop_counts)
qed




text \<open>
  Claim C9, as the code has it. Given \<open>leaves\<close>, \<open>layers\<close> and a non-empty \<open>root\<close>, the
  constructor hashes nothing and checks nothing: the tree holds the four values as
  they were given.
\<close>

theorem precomputed_bundle_stored:
  "r \<noteq> [] \<Longrightarrow> MerkleTree_new H num d (Some lv) (Some ls) (Some r)
     = Inr \<lparr>leaves = lv, layers = ls, data = d, root = Some r\<rparr>"
  by (simp add: MerkleTree_new_def truthy_def)

text \<open>A one-leaf bundle.\<close>

theorem precomputed_bundle_stored_witness:
  "''ff'' \<noteq> []
   \<and> MerkleTree_new hexEncode (\<lambda>n::nat. []) (Generic [''a''])
       (Some [''61'']) (Some [[''61'']]) (Some ''ff'')
     = Inr \<lparr>leaves = [''61''], layers = [[''61'']], data = Generic [''a''], root = Some ''ff''\<rparr>"
proof -
  have a: "''ff'' \<noteq> []" by simp
  from precomputed_bundle_stored [OF a] a show ?thesis by blast
qed

text \<open>
  Claim C9 as stated fails: a bundle that breaks the three invariants is accepted, and
  the tree made from it breaks them.
\<close>

theorem precomputed_bundle_not_validated:
  "MerkleTree_new hexEncode (\<lambda>n::nat. []) (Generic [''a''])
       (Some []) (Some [[''61'', ''62'', ''63''], [''64'', ''65'', ''66'']]) (Some ''ff'')
     = Inr \<lparr>leaves = [], layers = [[''61'', ''62'', ''63''], [''64'', ''65'', ''66'']],
            data = Generic [''a''], root = Some ''ff''\<rparr>
   \<and> \<not> invariant1 \<lparr>leaves = [], layers = [[''61'', ''62'', ''63''], [''64'', ''65'', ''66'']],
            data = Generic [''a''] :: nat TreeData, root = Some ''ff''\<rparr>
   \<and> \<not> invariant2 \<lparr>leaves = [], layers = [[''61'', ''62'', ''63''], [''64'', ''65'', ''66'']],
            data = Generic [''a''] :: nat TreeData, root = Some ''ff''\<rparr>
   \<and> \<not> invariant3 \<lparr>leaves = [], layers = [[''61'', ''62'', ''63''], [''64'', ''65'', ''66'']],
            data = Generic [''a''] :: nat TreeData, root = Some ''ff''\<rparr>"
  by code_simp

text \<open>
  Claim C10. The constructor's hashing branch on an empty data list, of either variant,
  returns the layers \<open>[[]]\<close> and the root \<open>undefined\<close>, which is what position 0 of the
  empty last layer reads; the last layer does not have length one.
\<close>

theorem empty_data_tree:
  "MerkleTree_new H num (Generic []) None None None
     = Inr \<lparr>leaves = [], layers = [[]], data = Generic [], root = None\<rparr>
   \<and> MerkleTree_new H num (Balances []) None None None
     = Inr \<lparr>leaves = [], layers = [[]], data = Balances [], root = None\<rparr>
   \<and> lookup (last [[] :: string list]) 0 = None
   \<and> length (last [[] :: string list]) \<noteq> 1"
  by (simp add: MerkleTree_new_fresh precomputed_def leafDigests_def stringifyAccounts_def
      layersFrom_short lookup_def)

end
